theory Spec2Isabelle
  imports Main "HOL-Library.Product_Lexorder"
begin

section \<open>Write-forwarding Promise (package forwarding, promise.go)\<close>

subsection \<open>Errors\<close>

text \<open>
  Go error values as the forwarding package builds them: \<open>errors.New msg\<close>,
  \<open>recoverableError{err}\<close> (the struct the tests build with
  \<^verbatim>\<open>recoverableError{testErr}\<close>) and a wrapping error that keeps its cause
  reachable through \<open>Unwrap\<close>. \<open>errors.New\<close> returns a pointer to a new object, and
  two errors with the same text are two errors: \<open>ErrorsNew\<close> carries the address of
  the object with the text.
\<close>

datatype perror =
    ErrorsNew nat string
  | RecoverableError perror
  | WithMessage perror string

text \<open>
  \<^verbatim>\<open>var promiseTimeout = errors.New("timed out while waiting for forwarding promise")\<close>
  is a package variable: its object is made when the package is initialised, before
  any other error of the program, at address \<open>0\<close>. Every later call of \<open>errors.New\<close>
  takes the last address given out and returns an object at the next one.
\<close>

definition promiseTimeout :: perror where
  "promiseTimeout = ErrorsNew 0 ''timed out while waiting for forwarding promise''"

definition errors_New :: "string \<Rightarrow> nat \<Rightarrow> perror \<times> nat" where
  "errors_New msg lastAddress = (ErrorsNew (Suc lastAddress) msg, Suc lastAddress)"

text \<open>
  \<^verbatim>\<open>errors.As(err, &recoverableError{})\<close>: true when some error of the chain of
  \<open>err\<close> is a \<open>recoverableError\<close>. The chain is followed through \<open>Unwrap\<close>;
  \<open>recoverableError\<close> itself matches at once.
\<close>

fun isRecoverable :: "perror \<Rightarrow> bool" where
  "isRecoverable (ErrorsNew a m) = False"
| "isRecoverable (RecoverableError e) = True"
| "isRecoverable (WithMessage e m) = isRecoverable e"

subsection \<open>The Promise\<close>

text \<open>
  \<open>timeout\<close> is a \<open>time.Duration\<close>, a count of nanoseconds. \<open>doneCh\<close> is a channel
  that is only ever closed: the model keeps whether it is closed. The mutex \<open>errMtx\<close>
  makes every access to \<open>err\<close> atomic, so calls are modelled one after another.
\<close>

record Promise =
  timeout :: int
  propagateErrors :: bool
  doneCh :: bool
  err :: "perror option"

definition NewPromise :: "int \<Rightarrow> bool \<Rightarrow> Promise" where
  "NewPromise t propagate =
     \<lparr>timeout = t, propagateErrors = propagate, doneCh = False, err = None\<rparr>"

text \<open>\<open>done\<close> closes the channel.\<close>

definition done_promise :: "Promise \<Rightarrow> Promise" where
  "done_promise s = s\<lparr>doneCh := True\<rparr>"

text \<open>
  \<open>setError\<close>: a nil error and a promise without propagation return at once; an empty
  slot takes the error; otherwise the stored error is replaced only when it is not
  recoverable and the new one is.
\<close>

definition setError :: "perror option \<Rightarrow> Promise \<Rightarrow> Promise" where
  "setError e s =
     (case e of
        None \<Rightarrow> s
      | Some new \<Rightarrow>
          if \<not> propagateErrors s then s
          else (case err s of
                  None \<Rightarrow> s\<lparr>err := Some new\<rparr>
                | Some old \<Rightarrow>
                    if \<not> isRecoverable old \<and> isRecoverable new
                    then s\<lparr>err := Some new\<rparr>
                    else s))"

text \<open>A sequence of \<open>setError\<close> calls, in the order the mutex serialises them.\<close>

fun setErrors :: "perror option list \<Rightarrow> Promise \<Rightarrow> Promise" where
  "setErrors [] s = s"
| "setErrors (e # es) s = setErrors es (setError e s)"

text \<open>
  The precedence rule in the words of the specification: the first recoverable error
  that was set wins; without one, the first error that was set is kept; nil errors do
  not count.
\<close>

definition firstRecoverableWins :: "perror option list \<Rightarrow> perror option" where
  "firstRecoverableWins es =
     (let set_errors = List.map_filter (\<lambda>e. e) es in
      case List.find isRecoverable set_errors of
        Some r \<Rightarrow> Some r
      | None \<Rightarrow> (case set_errors of [] \<Rightarrow> None | e # _ \<Rightarrow> Some e))"


subsection \<open>Waiting for the promise\<close>

text \<open>
  \<open>Wait\<close> starts a timer of \<open>timeout\<close> and blocks in a \<open>select\<close> on \<open>doneCh\<close> and on
  the timer's channel. What the call does depends on what happens around it, and that
  is a parameter of the model, on a clock that counts nanoseconds as \<open>time.Duration\<close>
  does:
  \<^item> \<open>closing\<close>: the instant at which another goroutine calls \<open>done\<close> (\<open>None\<close>: it
    never does);
  \<^item> \<open>timerDelay\<close>: a Go timer sends on its channel after at least its duration; this is
    how much later than that it does;
  \<^item> \<open>wakeDelay\<close>: the goroutine runs again after the case it waits for has become
    ready; this is how much later, beyond the one tick of the clock that it takes at
    least (\<open>TestPromiseTimeout\<close> requires the time elapsed to be greater than the
    timeout);
  \<^item> \<open>during\<close>: the \<open>setError\<close> calls of other goroutines that get the mutex while
    \<open>Wait\<close> is blocked.
\<close>

record environment =
  closing :: "int option"
  timerDelay :: nat
  wakeDelay :: nat
  during :: "perror option list"

text \<open>
  The timer of a call made at \<open>now\<close> fires \<open>timeout\<close> later (at once when \<open>timeout\<close> is
  not positive) plus its delay. A closed channel can be read at once, an open one from
  the instant it is closed.
\<close>

definition timerFires :: "environment \<Rightarrow> int \<Rightarrow> Promise \<Rightarrow> int" where
  "timerFires env now s = now + max 0 (timeout s) + int (timerDelay env)"

definition doneReadable :: "environment \<Rightarrow> int \<Rightarrow> Promise \<Rightarrow> int option" where
  "doneReadable env now s =
     (if doneCh s then Some now else map_option (max now) (closing env))"

definition resumes :: "environment \<Rightarrow> int \<Rightarrow> int" where
  "resumes env ready = ready + 1 + int (wakeDelay env)"

text \<open>
  \<open>select\<close> takes the case that can proceed first, and either of the two when both can
  at the same instant. \<open>Wait env now s (t, s')\<close>: the call made at \<open>now\<close> returns at
  \<open>t\<close> and leaves the promise \<open>s'\<close>. The first case leaves the error alone; the second
  stores \<open>promiseTimeout\<close>, whatever was stored.
\<close>

inductive Wait :: "environment \<Rightarrow> int \<Rightarrow> Promise \<Rightarrow> int \<times> Promise \<Rightarrow> bool"
  for env :: environment and now :: int and s :: Promise
where
  case_doneCh:
    "doneReadable env now s = Some ready \<Longrightarrow> ready \<le> timerFires env now s \<Longrightarrow>
     Wait env now s (resumes env ready, (setErrors (during env) s)\<lparr>doneCh := True\<rparr>)"
| case_awaitTimeout:
    "(case doneReadable env now s of None \<Rightarrow> True | Some ready \<Rightarrow> timerFires env now s \<le> ready) \<Longrightarrow>
     Wait env now s
       (resumes env (timerFires env now s),
        (setErrors (during env) s)\<lparr>err := Some promiseTimeout\<rparr>)"

code_pred Wait .

text \<open>
  \<open>Error\<close> waits, takes the mutex again and reads the stored error. \<open>Wait\<close> has given
  the mutex back when it returns, so \<open>setError\<close> calls of other goroutines can come
  between the two: \<open>between\<close> lists them.
\<close>

inductive Error_returns ::
  "environment \<Rightarrow> perror option list \<Rightarrow> int \<Rightarrow> Promise \<Rightarrow> int \<times> Promise \<times> perror option \<Rightarrow> bool"
  for env :: environment and between :: "perror option list" and now :: int and s :: Promise
where
  "Wait env now s (t, s') \<Longrightarrow>
   Error_returns env between now s (t, setErrors between s', err (setErrors between s'))"

code_pred Error_returns .

text \<open>An environment in which nothing else happens and nothing is late.\<close>

definition quiet :: environment where
  "quiet = \<lparr>closing = None, timerDelay = 0, wakeDelay = 0, during = []\<rparr>"

text \<open>The first recoverable error among those set, if there is one.\<close>

definition firstRecoverable :: "perror option list \<Rightarrow> perror option" where
  "firstRecoverable es = List.find isRecoverable (List.map_filter (\<lambda>e. e) es)"

text \<open>
  Two environments: a timer and a scheduler that are late while \<open>done\<close> is never
  called, and a goroutine that sets an error and calls \<open>done\<close> well before the timer.
\<close>

definition lateTimer :: environment where
  "lateTimer = \<lparr>closing = None, timerDelay = 2000, wakeDelay = 3000, during = []\<rparr>"

definition doneInTime :: environment where
  "doneInTime = \<lparr>closing = Some 50, timerDelay = 0, wakeDelay = 0,
                  during = [Some (ErrorsNew 1 ''Test error'')]\<rparr>"

subsection \<open>Precedence of errors\<close>

lemma firstRecoverableWins_None [simp]:
  "firstRecoverableWins (None # es) = firstRecoverableWins es"
  by (simp add: firstRecoverableWins_def)

lemma firstRecoverableWins_recoverable:
  "isRecoverable r \<Longrightarrow> firstRecoverableWins (Some r # es) = Some r"
  by (simp add: firstRecoverableWins_def)

lemma firstRecoverableWins_skip_None:
  "firstRecoverableWins (x # None # es) = firstRecoverableWins (x # es)"
  by (simp add: firstRecoverableWins_def split: option.splits)

lemma firstRecoverableWins_plain_plain:
  "\<not> isRecoverable e \<Longrightarrow> \<not> isRecoverable e' \<Longrightarrow>
   firstRecoverableWins (Some e # Some e' # es) = firstRecoverableWins (Some e # es)"
  by (simp add: firstRecoverableWins_def split: option.splits)

lemma firstRecoverableWins_plain_recoverable:
  "\<not> isRecoverable e \<Longrightarrow> isRecoverable r \<Longrightarrow>
   firstRecoverableWins (Some e # Some r # es) = Some r"
  by (simp add: firstRecoverableWins_def)

lemma setError_propagateErrors [simp]: "propagateErrors (setError e s) = propagateErrors s"
  by (simp add: setError_def split: option.splits)

lemma setError_step:
  assumes "propagateErrors s"
  shows "firstRecoverableWins (err (setError e s) # es) = firstRecoverableWins (err s # e # es)"
proof (cases e)
  case None
  then show ?thesis
    by (cases "err s") (simp_all add: setError_def firstRecoverableWins_skip_None)
next
  case new: (Some new)
  show ?thesis
  proof (cases "err s")
    case None
    then show ?thesis using new assms by (simp add: setError_def)
  next
    case (Some old)
    then show ?thesis using new assms
      by (cases "isRecoverable old"; cases "isRecoverable new")
        (simp_all add: setError_def firstRecoverableWins_recoverable
          firstRecoverableWins_plain_plain firstRecoverableWins_plain_recoverable)
  qed
qed

lemma setErrors_stored_recoverable:
  "err s = Some r \<Longrightarrow> isRecoverable r \<Longrightarrow> err (setErrors es s) = Some r"
proof (induction es arbitrary: s)
  case Nil
  then show ?case by simp
next
  case (Cons e es)
  have "err (setError e s) = Some r"
    using Cons.prems by (simp add: setError_def split: option.splits)
  then show ?case using Cons.IH Cons.prems(2) by simp
qed

text \<open>
  Claim C7. On a promise that propagates errors, whatever sequence of \<open>setError\<close> calls
  is made (nil errors included), the error stored at the end is the one the
  first-recoverable-error-wins rule selects among the error stored before and the errors
  set, in order: the first recoverable one, else the first one; nil errors are ignored.
\<close>

theorem setError_first_recoverable_wins:
  assumes "propagateErrors s"
  shows "err (setErrors es s) = firstRecoverableWins (err s # es)"
  using assms
proof (induction es arbitrary: s)
  case Nil
  show ?case
    by (cases "err s") (simp_all add: firstRecoverableWins_def split: option.splits)
next
  case (Cons e es)
  have p: "propagateErrors (setError e s)" using Cons.prems by simp
  show ?case using Cons.IH [OF p] setError_step [OF Cons.prems] by simp
qed

theorem setError_first_recoverable_wins_witness:
  "propagateErrors (NewPromise 1000000000 True) \<and>
   err (setErrors [None, Some (ErrorsNew 1 ''Test error''),
                   Some (RecoverableError (ErrorsNew 2 ''first'')),
                   Some (ErrorsNew 3 ''other''),
                   Some (RecoverableError (ErrorsNew 4 ''second''))]
          (NewPromise 1000000000 True))
     = Some (RecoverableError (ErrorsNew 2 ''first''))"
  using setError_first_recoverable_wins [of "NewPromise 1000000000 True"
      "[None, Some (ErrorsNew 1 ''Test error''),
        Some (RecoverableError (ErrorsNew 2 ''first'')),
        Some (ErrorsNew 3 ''other''),
        Some (RecoverableError (ErrorsNew 4 ''second''))]"]
  by (simp add: NewPromise_def firstRecoverableWins_def)

subsection \<open>Waiting, the timeout and the stored error\<close>

lemma setErrors_stored:
  "propagateErrors s \<Longrightarrow> err (setErrors es s) = firstRecoverableWins (err s # es)"
proof (induction es arbitrary: s)
  case Nil
  show ?case
    by (cases "err s") (simp_all add: firstRecoverableWins_def split: option.splits)
next
  case (Cons e es)
  have "propagateErrors (setError e s)" using Cons.prems by simp
  then have "err (setErrors es (setError e s)) = firstRecoverableWins (err (setError e s) # es)"
    by (rule Cons.IH)
  then show ?case using setError_step [OF Cons.prems] by simp
qed

lemma setErrors_no_propagation: "\<not> propagateErrors s \<Longrightarrow> setErrors es s = s"
  by (induction es arbitrary: s) (simp_all add: setError_def split: option.splits)

lemma setErrors_fields [simp]:
  "timeout (setErrors es s) = timeout s" "doneCh (setErrors es s) = doneCh s"
  "propagateErrors (setErrors es s) = propagateErrors s"
  by (induction es arbitrary: s) (simp_all add: setError_def split: option.splits)

lemma setErrors_append: "setErrors (xs @ ys) s = setErrors ys (setErrors xs s)"
  by (induction xs arbitrary: s) simp_all

lemma setError_doneCh:
  "setError e (s\<lparr>doneCh := b\<rparr>) = (setError e s)\<lparr>doneCh := b\<rparr>"
  by (simp add: setError_def split: option.splits)

lemma setErrors_doneCh:
  "setErrors es (s\<lparr>doneCh := b\<rparr>) = (setErrors es s)\<lparr>doneCh := b\<rparr>"
  by (induction es arbitrary: s) (simp_all add: setError_doneCh)

lemma promiseTimeout_not_recoverable: "\<not> isRecoverable promiseTimeout"
  by (simp add: promiseTimeout_def)

lemma firstRecoverableWins_after_timeout:
  "firstRecoverableWins (Some promiseTimeout # es) =
     (case firstRecoverable es of Some r \<Rightarrow> Some r | None \<Rightarrow> Some promiseTimeout)"
  by (simp add: firstRecoverableWins_def firstRecoverable_def promiseTimeout_not_recoverable
      split: option.splits)

lemma Wait_returns: "\<exists>out. Wait env now s out"
proof (cases "\<exists>ready. doneReadable env now s = Some ready \<and> ready \<le> timerFires env now s")
  case True
  then show ?thesis using Wait.intros(1) by blast
next
  case False
  then have "case doneReadable env now s of None \<Rightarrow> True | Some ready \<Rightarrow> timerFires env now s \<le> ready"
    by (auto split: option.splits)
  then show ?thesis using Wait.intros(2) by blast
qed

lemma Wait_within:
  "Wait env now s (t, s') \<Longrightarrow> now < t \<and> t \<le> resumes env (timerFires env now s)"
  by (auto simp add: Wait.simps timerFires_def doneReadable_def resumes_def split: if_splits)

lemma Wait_timer_first:
  assumes "\<not> doneCh s"
    and "closing env = None \<or> (\<exists>d. closing env = Some d \<and> timerFires env now s < d)"
    and "Wait env now s (t, s')"
  shows "t = resumes env (timerFires env now s) \<and> now + timeout s < t \<and>
         s' = (setErrors (during env) s)\<lparr>err := Some promiseTimeout\<rparr>"
  using assms
  by (auto simp add: Wait.simps doneReadable_def resumes_def timerFires_def)

lemma Wait_done_first:
  assumes "doneReadable env now s = Some ready" and "ready < timerFires env now s"
    and "Wait env now s (t, s')"
  shows "t = resumes env ready \<and> s' = (setErrors (during env) s)\<lparr>doneCh := True\<rparr>"
  using assms by (auto simp add: Wait.simps)

lemma Error_returns_timer_first:
  assumes "\<not> doneCh s"
    and "closing env = None \<or> (\<exists>d. closing env = Some d \<and> timerFires env now s < d)"
    and "Error_returns env between now s (t, s', e)"
  shows "e = (if propagateErrors s
              then (case firstRecoverable between of Some r \<Rightarrow> Some r | None \<Rightarrow> Some promiseTimeout)
              else Some promiseTimeout)"
proof -
  from assms(3) obtain s1 where w: "Wait env now s (t, s1)" and e: "e = err (setErrors between s1)"
    by (auto simp add: Error_returns.simps)
  have s1: "s1 = (setErrors (during env) s)\<lparr>err := Some promiseTimeout\<rparr>"
    using Wait_timer_first [OF assms(1,2) w] by simp
  show ?thesis
  proof (cases "propagateErrors s")
    case True
    then have "propagateErrors s1" using s1 by simp
    then have "e = firstRecoverableWins (err s1 # between)" using e setErrors_stored by simp
    then show ?thesis using True s1 by (simp add: firstRecoverableWins_after_timeout)
  next
    case False
    then have "\<not> propagateErrors s1" using s1 by simp
    then show ?thesis using False e s1 by (simp add: setErrors_no_propagation)
  qed
qed

lemma Error_returns_done_first:
  assumes "doneReadable env now s = Some ready" and "ready < timerFires env now s"
    and "Error_returns env between now s (t, s', e)"
  shows "e = err (setErrors (during env @ between) s)"
proof -
  from assms(3) obtain s1 where w: "Wait env now s (t, s1)" and e: "e = err (setErrors between s1)"
    by (auto simp add: Error_returns.simps)
  have s1: "s1 = (setErrors (during env) s)\<lparr>doneCh := True\<rparr>"
    using Wait_done_first [OF assms(1,2) w] by simp
  show ?thesis using e s1 by (simp add: setErrors_append setErrors_doneCh)
qed

text \<open>
  Claim C8, amended. \<open>Wait\<close> always returns, after the call and no later than its timer
  has fired and the goroutine has run again, whatever \<open>done\<close> does. When \<open>doneCh\<close> is
  open and is not closed before the timer fires, \<open>Wait\<close> returns then, more than
  \<open>timeout\<close> after the call, and leaves \<open>promiseTimeout\<close> stored; \<open>Error\<close> then returns
  \<open>promiseTimeout\<close>, unless the promise propagates errors and a recoverable error was
  set between the end of its wait and its read: then it returns the first of those.
  When \<open>doneCh\<close> can be read before the timer fires, \<open>Wait\<close> returns without touching
  the stored error, and \<open>Error\<close> returns what the \<open>setError\<close> calls have left.
  \<open>promiseTimeout\<close> is an error of its own: no error that \<open>errors.New\<close> returns later,
  whatever its text, and no wrapped error is equal to it.
\<close>

theorem Wait_timeout_contract:
  "(\<exists>out. Wait env now s out)
   \<and> (Wait env now s (t, s') \<longrightarrow> now < t \<and> t \<le> resumes env (timerFires env now s))
   \<and> (\<not> doneCh s \<and> (closing env = None \<or> (\<exists>d. closing env = Some d \<and> timerFires env now s < d))
        \<and> Wait env now s (t, s')
      \<longrightarrow> t = resumes env (timerFires env now s) \<and> now + timeout s < t
          \<and> err s' = Some promiseTimeout)
   \<and> (\<not> doneCh s \<and> (closing env = None \<or> (\<exists>d. closing env = Some d \<and> timerFires env now s < d))
        \<and> Error_returns env between now s (t, s', e)
      \<longrightarrow> e = (if propagateErrors s
                then (case firstRecoverable between of Some r \<Rightarrow> Some r | None \<Rightarrow> Some promiseTimeout)
                else Some promiseTimeout))
   \<and> (doneReadable env now s = Some ready \<and> ready < timerFires env now s \<and> Wait env now s (t, s')
      \<longrightarrow> t = resumes env ready \<and> err s' = err (setErrors (during env) s))
   \<and> (doneReadable env now s = Some ready \<and> ready < timerFires env now s
        \<and> Error_returns env between now s (t, s', e)
      \<longrightarrow> e = err (setErrors (during env @ between) s))
   \<and> fst (errors_New msg lastAddress) \<noteq> promiseTimeout
   \<and> RecoverableError x \<noteq> promiseTimeout
   \<and> WithMessage x m \<noteq> promiseTimeout"
proof -
  have c1: "\<exists>out. Wait env now s out" by (rule Wait_returns)
  have c2: "Wait env now s (t, s') \<longrightarrow> now < t \<and> t \<le> resumes env (timerFires env now s)"
    using Wait_within by blast
  have c3: "\<not> doneCh s \<and> (closing env = None \<or> (\<exists>d. closing env = Some d \<and> timerFires env now s < d))
        \<and> Wait env now s (t, s')
      \<longrightarrow> t = resumes env (timerFires env now s) \<and> now + timeout s < t
          \<and> err s' = Some promiseTimeout"
  proof (intro impI, elim conjE)
    assume a: "\<not> doneCh s"
      "closing env = None \<or> (\<exists>d. closing env = Some d \<and> timerFires env now s < d)"
      "Wait env now s (t, s')"
    show "t = resumes env (timerFires env now s) \<and> now + timeout s < t \<and> err s' = Some promiseTimeout"
      using Wait_timer_first [OF a] by simp
  qed
  have c4: "\<not> doneCh s \<and> (closing env = None \<or> (\<exists>d. closing env = Some d \<and> timerFires env now s < d))
        \<and> Error_returns env between now s (t, s', e)
      \<longrightarrow> e = (if propagateErrors s
                then (case firstRecoverable between of Some r \<Rightarrow> Some r | None \<Rightarrow> Some promiseTimeout)
                else Some promiseTimeout)"
    using Error_returns_timer_first by blast
  have c5: "doneReadable env now s = Some ready \<and> ready < timerFires env now s \<and> Wait env now s (t, s')
      \<longrightarrow> t = resumes env ready \<and> err s' = err (setErrors (during env) s)"
  proof (intro impI, elim conjE)
    assume a: "doneReadable env now s = Some ready" "ready < timerFires env now s"
      "Wait env now s (t, s')"
    show "t = resumes env ready \<and> err s' = err (setErrors (during env) s)"
      using Wait_done_first [OF a] by simp
  qed
  have c6: "doneReadable env now s = Some ready \<and> ready < timerFires env now s
        \<and> Error_returns env between now s (t, s', e)
      \<longrightarrow> e = err (setErrors (during env @ between) s)"
    using Error_returns_done_first by blast
  have c7: "fst (errors_New msg lastAddress) \<noteq> promiseTimeout"
    by (simp add: errors_New_def promiseTimeout_def)
  have c8: "RecoverableError x \<noteq> promiseTimeout" by (simp add: promiseTimeout_def)
  have c9: "WithMessage x m \<noteq> promiseTimeout" by (simp add: promiseTimeout_def)
  show ?thesis
    by (rule conjI [OF c1 conjI [OF c2 conjI [OF c3 conjI [OF c4 conjI [OF c5
          conjI [OF c6 conjI [OF c7 conjI [OF c8 c9]]]]]]]])
qed

lemmas wait_eval =
  Wait.simps Error_returns.simps NewPromise_def quiet_def timerFires_def doneReadable_def
  resumes_def setError_def done_promise_def promiseTimeout_def errors_New_def firstRecoverable_def

text \<open>
  Claim C8, as stated, has \<open>Error\<close> return the timeout error whenever \<open>done\<close> was not
  called within the timeout. On a promise that propagates errors it need not. First
  run: \<open>Wait\<close> times out; then the forwarding goroutine ends with a recoverable error
  and calls \<open>done\<close>; \<open>setError\<close> puts the recoverable error in the place of the timeout
  error, which is not recoverable, and \<open>Error\<close>, whose wait ends at once on the closed
  channel, returns it. Second run: \<open>done\<close> is never called, \<open>Error\<close> waits until the
  timer fires, and a \<open>setError\<close> with a recoverable error gets the mutex between the
  end of that wait and the read.
\<close>

theorem Error_after_timeout_counterexample:
  "\<not> doneCh (NewPromise 100 True) \<and> closing quiet = None
   \<and> Wait quiet 0 (NewPromise 100 True) (101, (NewPromise 100 True)\<lparr>err := Some promiseTimeout\<rparr>)
   \<and> Error_returns quiet [] 101
        (done_promise (setError (Some (RecoverableError (ErrorsNew 1 ''remote write failed'')))
           ((NewPromise 100 True)\<lparr>err := Some promiseTimeout\<rparr>)))
        (102,
         (NewPromise 100 True)\<lparr>doneCh := True,
            err := Some (RecoverableError (ErrorsNew 1 ''remote write failed''))\<rparr>,
         Some (RecoverableError (ErrorsNew 1 ''remote write failed'')))
   \<and> Error_returns quiet [Some (RecoverableError (ErrorsNew 1 ''remote write failed''))] 0
        (NewPromise 100 True)
        (101,
         (NewPromise 100 True)\<lparr>err := Some (RecoverableError (ErrorsNew 1 ''remote write failed''))\<rparr>,
         Some (RecoverableError (ErrorsNew 1 ''remote write failed'')))
   \<and> RecoverableError (ErrorsNew 1 ''remote write failed'') \<noteq> promiseTimeout"
  by (simp add: wait_eval)

theorem Wait_timeout_contract_witness:
  "\<not> doneCh (NewPromise 100000000 False) \<and> closing lateTimer = None
   \<and> Wait lateTimer 0 (NewPromise 100000000 False)
        (100005001, (NewPromise 100000000 False)\<lparr>err := Some promiseTimeout\<rparr>)
   \<and> (0 :: int) + timeout (NewPromise 100000000 False) < 100005001
   \<and> Error_returns lateTimer [] 0 (NewPromise 100000000 False)
        (100005001, (NewPromise 100000000 False)\<lparr>err := Some promiseTimeout\<rparr>, Some promiseTimeout)
   \<and> doneReadable doneInTime 0 (NewPromise 1000000000 True) = Some 50
   \<and> 50 < timerFires doneInTime 0 (NewPromise 1000000000 True)
   \<and> Wait doneInTime 0 (NewPromise 1000000000 True)
        (51, (NewPromise 1000000000 True)\<lparr>doneCh := True, err := Some (ErrorsNew 1 ''Test error'')\<rparr>)
   \<and> Error_returns doneInTime [] 0 (NewPromise 1000000000 True)
        (51, (NewPromise 1000000000 True)\<lparr>doneCh := True, err := Some (ErrorsNew 1 ''Test error'')\<rparr>,
         Some (ErrorsNew 1 ''Test error''))
   \<and> fst (errors_New ''timed out while waiting for forwarding promise'' 0) \<noteq> promiseTimeout"
proof -
  let ?p = "NewPromise 100000000 False"
  let ?p' = "?p\<lparr>err := Some promiseTimeout\<rparr>"
  let ?q = "NewPromise 1000000000 True"
  let ?q' = "?q\<lparr>doneCh := True, err := Some (ErrorsNew 1 ''Test error'')\<rparr>"
  have h1: "\<not> doneCh ?p" and h2: "closing lateTimer = None"
    by (simp_all add: NewPromise_def lateTimer_def)
  have w1: "Wait lateTimer 0 ?p (100005001, ?p')"
    by (simp add: wait_eval lateTimer_def)
  have e1: "Error_returns lateTimer [] 0 ?p (100005001, ?p', Some promiseTimeout)"
    by (simp add: wait_eval lateTimer_def)
  have r: "doneReadable doneInTime 0 ?q = Some 50"
    by (simp add: wait_eval doneInTime_def)
  have l: "50 < timerFires doneInTime 0 ?q"
    by (simp add: wait_eval doneInTime_def)
  have w2: "Wait doneInTime 0 ?q (51, ?q')"
    by (simp add: wait_eval doneInTime_def)
  have e2: "Error_returns doneInTime [] 0 ?q (51, ?q', Some (ErrorsNew 1 ''Test error''))"
    by (simp add: wait_eval doneInTime_def)
  show ?thesis
    using Wait_timeout_contract [where env = lateTimer and now = 0 and s = ?p and t = 100005001
        and s' = ?p' and between = "[]" and e = "Some promiseTimeout"
        and msg = "''timed out while waiting for forwarding promise''" and lastAddress = 0]
      Wait_timeout_contract [where env = doneInTime and now = 0 and s = ?q and t = 51
        and s' = ?q' and between = "[]" and e = "Some (ErrorsNew 1 ''Test error'')"
        and ready = 50]
      h1 h2 w1 e1 r l w2 e2
    by (simp add: NewPromise_def)
qed

section \<open>Query sharding middleware (package queryrange, querysharding.go)\<close>

subsection \<open>Errors seen by the middleware\<close>

text \<open>
  The error types the source names: \<open>apierror.New typ msg\<close> with the four type
  constants it uses, the three error types of the PromQL engine, a plain error, and an
  error wrapped with a message (\<open>errors.Wrap\<close>), whose cause \<open>errors.Cause\<close>
  recovers.
\<close>

datatype apierror_Type = TypeBadData | TypeInternal | TypeCanceled | TypeTimeout

datatype qerror =
    ApiError apierror_Type string
  | ErrQueryCanceled string
  | ErrQueryTimeout string
  | ErrStorage qerror
  | PlainError string
  | Wrapped qerror string

text \<open>\<open>err.Error()\<close>, the message of an error.\<close>

fun Error :: "qerror \<Rightarrow> string" where
  "Error (ApiError t m) = m"
| "Error (ErrQueryCanceled q) = ''query was canceled in '' @ q"
| "Error (ErrQueryTimeout q) = ''query timed out in '' @ q"
| "Error (ErrStorage e) = Error e"
| "Error (PlainError m) = m"
| "Error (Wrapped e m) = m @ '': '' @ Error e"

text \<open>\<open>errors.Cause\<close>: follows the wrappers down to the first error that is not one.\<close>

fun Cause :: "qerror \<Rightarrow> qerror" where
  "Cause (Wrapped e m) = Cause e"
| "Cause e = e"

text \<open>
  \<open>mapEngineError\<close>: nil stays nil; the type starts as \<open>TypeInternal\<close> and the switch on
  the cause's type changes it for a canceled and a timed-out query, and sets
  \<open>TypeInternal\<close> again for a storage error.
\<close>

definition mapEngineError :: "qerror option \<Rightarrow> qerror option" where
  "mapEngineError error =
     (case error of
        None \<Rightarrow> None
      | Some e \<Rightarrow>
          (let errorType =
             (case Cause e of
                ErrQueryCanceled _ \<Rightarrow> TypeCanceled
              | ErrQueryTimeout _ \<Rightarrow> TypeTimeout
              | ErrStorage _ \<Rightarrow> TypeInternal
              | _ \<Rightarrow> TypeInternal)
           in Some (ApiError errorType (Error e))))"

subsection \<open>Requests, responses and collaborators\<close>

record Options =
  TotalShards :: int
  ShardingDisabled :: bool

record Request =
  GetQuery :: string
  GetStart :: int
  GetEnd :: int
  GetStep :: int
  GetOptions :: Options

definition WithQuery :: "string \<Rightarrow> Request \<Rightarrow> Request" where
  "WithQuery q r = r\<lparr>GetQuery := q\<rparr>"

record ('ext, 'hdr) PrometheusResponse =
  Status :: string
  ResultType :: string
  Result :: 'ext
  Headers :: "'hdr list"

definition StatusSuccess :: string where
  "StatusSuccess = ''success''"

text \<open>
  What the middleware calls and does not define is a parameter of the model:
  \<^item> \<open>TenantIDs\<close>: the outcome of \<open>tenant.TenantIDs ctx\<close>;
  \<^item> \<open>QueryShardingTotalShards\<close>: the value of
    \<open>validation.SmallestPositiveIntPerTenant\<close> on the tenants' configured shard counts;
  \<^item> \<open>nextDo\<close>: the next handler of the pipeline;
  \<^item> \<open>NewSharding\<close>: \<open>astmapper.NewSharding\<close>, giving the mapper as its \<open>Map\<close>
    function, which returns the rewritten expression as a string together with the
    count the mapper leaves in its \<open>MapperStats\<close>;
  \<^item> \<open>ParseExpr\<close>: the PromQL parser;
  \<^item> \<open>NewRangeQuery\<close>, \<open>Exec\<close>: the PromQL engine on the sharded queryable;
  \<^item> \<open>FromResult\<close>, \<open>ValueType\<close>: the extraction of the engine's result;
  \<^item> \<open>getResponseHeaders\<close>: the headers the sharded queryable has collected.
\<close>

record ('expr, 'qry, 'res, 'ext, 'hdr) collaborators =
  TenantIDs :: "qerror + string list"
  QueryShardingTotalShards :: "string list \<Rightarrow> int"
  nextDo :: "Request \<Rightarrow> qerror + ('ext, 'hdr) PrometheusResponse"
  NewSharding :: "int \<Rightarrow> qerror + ('expr \<Rightarrow> qerror + string \<times> int)"
  ParseExpr :: "string \<Rightarrow> qerror + 'expr"
  NewRangeQuery :: "Request \<Rightarrow> qerror + 'qry"
  Exec :: "'qry \<Rightarrow> 'res"
  FromResult :: "'res \<Rightarrow> qerror + 'ext"
  ValueType :: "'res \<Rightarrow> string"
  getResponseHeaders :: "'qry \<Rightarrow> 'hdr list"

text \<open>
  \<open>shardQuery\<close>: the mapper is built first, then the query is parsed, and a parse error
  is turned into a \<open>TypeBadData\<close> error; the errors of the mapper are returned as they
  are.
\<close>

definition shardQuery ::
  "('expr, 'qry, 'res, 'ext, 'hdr) collaborators \<Rightarrow> string \<Rightarrow> int \<Rightarrow> qerror + string \<times> int"
where
  "shardQuery c query totalShards =
     (case NewSharding c totalShards of
        Inl e \<Rightarrow> Inl e
      | Inr mapper \<Rightarrow>
          (case ParseExpr c query of
             Inl e \<Rightarrow> Inl (ApiError TypeBadData (Error e))
           | Inr expr \<Rightarrow>
               (case mapper expr of
                  Inl e \<Rightarrow> Inl e
                | Inr (shardedQuery, stats) \<Rightarrow> Inr (shardedQuery, stats))))"

subsection \<open>The state a request leaves behind\<close>

text \<open>
  The counters of \<open>queryShardingMetrics\<close> (they only ever receive whole numbers, so
  they are integers here), the sharded-query count added to the query statistics, and
  the trace of what the request did: its log lines and its calls to the planner and to
  the next handler.
\<close>

datatype level = Debug | Warn

datatype logval = Str string | Num int

datatype event =
    Log level string "(string \<times> logval) list"
  | CallShardQuery string int
  | CallNext Request

record middleware_state =
  shardingAttempts :: int
  shardingSuccesses :: int
  shardedQueries :: int
  shardedQueriesPerQuery :: "int list"
  queryStats :: int
  trace :: "event list"

definition emit :: "event list \<Rightarrow> middleware_state \<Rightarrow> middleware_state" where
  "emit es st = st\<lparr>trace := trace st @ es\<rparr>"

subsection \<open>The handler\<close>

text \<open>
  \<open>Do\<close> is one function in the source; it is written here in its three consecutive
  parts. \<open>Do_sharded\<close> is its end, reached once the query has been rewritten into
  \<open>n \<noteq> 0\<close> sharded queries: the metrics and the query statistics are updated, the
  engine evaluates the rewritten query, an error of the engine's constructor is
  returned as it is, an error of the evaluation goes through \<open>mapEngineError\<close> (which
  gives an error for an error, so \<open>the\<close> reads it). The count goes to the query
  statistics as a \<open>uint32\<close>, a counter that wraps at \<open>2 ^ 32\<close>.
\<close>

definition Do_sharded ::
  "('expr, 'qry, 'res, 'ext, 'hdr) collaborators \<Rightarrow> middleware_state \<Rightarrow> Request
     \<Rightarrow> string \<Rightarrow> int \<Rightarrow> (qerror + ('ext, 'hdr) PrometheusResponse) \<times> middleware_state"
where
  "Do_sharded c st r shardedQuery n =
     (let st' = emit [Log Debug ''query has been rewritten into a shardable query''
                        [(''original'', Str (GetQuery r)), (''rewritten'', Str shardedQuery),
                         (''sharded_queries'', Num n)]]
                  (st\<lparr>shardingSuccesses := shardingSuccesses st + 1,
                      shardedQueries := shardedQueries st + n,
                      shardedQueriesPerQuery := shardedQueriesPerQuery st @ [n],
                      queryStats := (queryStats st + n mod 2 ^ 32) mod 2 ^ 32\<rparr>);
          r' = WithQuery shardedQuery r
      in
      case NewRangeQuery c r' of
        Inl e \<Rightarrow> (Inl e, st')
      | Inr qry \<Rightarrow>
          (let res = Exec c qry in
           case FromResult c res of
             Inl e \<Rightarrow> (Inl (the (mapEngineError (Some e))), st')
           | Inr extracted \<Rightarrow>
               (Inr \<lparr>Status = StatusSuccess,
                     ResultType = ValueType c res,
                     Result = extracted,
                     Headers = getResponseHeaders c qry\<rparr>,
                st')))"

text \<open>
  \<open>Do_plan\<close> is the middle: the attempt is counted, the planner is called, and an error
  or a rewrite into zero sharded queries sends the request \<open>r\<close>, as it came, to the next
  handler.
\<close>

definition Do_plan ::
  "('expr, 'qry, 'res, 'ext, 'hdr) collaborators \<Rightarrow> middleware_state \<Rightarrow> Request
     \<Rightarrow> int \<Rightarrow> (qerror + ('ext, 'hdr) PrometheusResponse) \<times> middleware_state"
where
  "Do_plan c st r totalShards =
     (let st' = emit [CallShardQuery (GetQuery r) totalShards]
                  (st\<lparr>shardingAttempts := shardingAttempts st + 1\<rparr>)
      in
      case shardQuery c (GetQuery r) totalShards of
        Inl e \<Rightarrow>
          (nextDo c r,
           emit [Log Warn ''failed to rewrite the input query into a shardable query, falling back to try executing without sharding''
                   [(''query'', Str (GetQuery r)), (''err'', Str (Error e))],
                 CallNext r] st')
      | Inr (shardedQuery, n) \<Rightarrow>
          if n = 0 then
            (nextDo c r,
             emit [Log Debug ''query is not supported for being rewritten into a shardable query''
                     [(''query'', Str (GetQuery r))],
                   CallNext r] st')
          else Do_sharded c st' r shardedQuery n)"

text \<open>
  \<open>totalShards\<close>: the tenants' configured value, replaced by the request's own
  \<open>TotalShards\<close> option when that is positive.
\<close>

definition totalShards ::
  "('expr, 'qry, 'res, 'ext, 'hdr) collaborators \<Rightarrow> string list \<Rightarrow> Request \<Rightarrow> int"
where
  "totalShards c tenantIDs r =
     (if TotalShards (GetOptions r) > 0 then TotalShards (GetOptions r)
      else QueryShardingTotalShards c tenantIDs)"

definition Do ::
  "('expr, 'qry, 'res, 'ext, 'hdr) collaborators \<Rightarrow> middleware_state \<Rightarrow> Request
     \<Rightarrow> (qerror + ('ext, 'hdr) PrometheusResponse) \<times> middleware_state"
where
  "Do c st r =
     (case TenantIDs c of
        Inl e \<Rightarrow> (Inl (ApiError TypeBadData (Error e)), st)
      | Inr tenantIDs \<Rightarrow>
          if ShardingDisabled (GetOptions r) \<or> totalShards c tenantIDs r \<le> 1 then
            (nextDo c r,
             emit [Log Debug ''query sharding is disabled for this query or tenant'' [],
                   CallNext r] st)
          else Do_plan c st r (totalShards c tenantIDs r))"

subsection \<open>An example deployment\<close>

definition exampleCollaborators ::
  "(string, string, qerror + string, string, string) collaborators" where
  "exampleCollaborators =
     \<lparr>TenantIDs = Inr [''tenant-a''],
      QueryShardingTotalShards = (\<lambda>ids. 16),
      nextDo = (\<lambda>r. Inr \<lparr>Status = StatusSuccess, ResultType = ''matrix'',
                             Result = GetQuery r, Headers = []\<rparr>),
      NewSharding = (\<lambda>n. Inr (\<lambda>expr. if expr = ''up'' then Inr (expr, 0)
                                     else if expr = ''boom'' then Inl (PlainError ''cannot map'')
                                     else Inr (''sharded '' @ expr, n))),
      ParseExpr = (\<lambda>q. if q = ''sum('' then Inl (PlainError ''unexpected end of input'') else Inr q),
      NewRangeQuery = (\<lambda>r. if GetQuery r = ''sharded bad'' then Inl (PlainError ''invalid expression'')
                           else Inr (GetQuery r)),
      Exec = (\<lambda>q. if q = ''sharded slow'' then Inl (ErrQueryTimeout ''query execution'') else Inr q),
      FromResult = (\<lambda>res. res),
      ValueType = (\<lambda>res. ''matrix''),
      getResponseHeaders = (\<lambda>q. [])\<rparr>"

definition exampleRequest :: "string \<Rightarrow> int \<Rightarrow> bool \<Rightarrow> Request" where
  "exampleRequest q n disabled =
     \<lparr>GetQuery = q, GetStart = 0, GetEnd = 3600000, GetStep = 15000,
      GetOptions = \<lparr>TotalShards = n, ShardingDisabled = disabled\<rparr>\<rparr>"

definition initialState :: middleware_state where
  "initialState = \<lparr>shardingAttempts = 0, shardingSuccesses = 0, shardedQueries = 0,
                    shardedQueriesPerQuery = [], queryStats = 0, trace = []\<rparr>"

subsection \<open>Properties of the handler\<close>

lemma Do_sharded_attempts: "shardingAttempts (snd (Do_sharded c st r q n)) = shardingAttempts st"
  by (simp add: Do_sharded_def emit_def Let_def split: sum.splits)

lemma Do_sharded_trace: "set (trace st) \<subseteq> set (trace (snd (Do_sharded c st r q n)))"
  by (auto simp add: Do_sharded_def emit_def Let_def split: sum.splits)

lemma Do_plan_attempts: "shardingAttempts (snd (Do_plan c st r n)) = shardingAttempts st + 1"
  by (simp add: Do_plan_def emit_def Let_def Do_sharded_attempts split: sum.splits prod.splits)

lemma Do_plan_called: "CallShardQuery (GetQuery r) n \<in> set (trace (snd (Do_plan c st r n)))"
proof (cases "shardQuery c (GetQuery r) n")
  case (Inl e)
  then show ?thesis by (simp add: Do_plan_def emit_def)
next
  case (Inr p)
  obtain q k where p: "p = (q, k)" by (cases p)
  show ?thesis
  proof (cases "k = 0")
    case True
    then show ?thesis using Inr p by (simp add: Do_plan_def emit_def)
  next
    case False
    have "CallShardQuery (GetQuery r) n \<in> set (trace (emit [CallShardQuery (GetQuery r) n]
                  (st\<lparr>shardingAttempts := shardingAttempts st + 1\<rparr>)))"
      by (simp add: emit_def)
    then show ?thesis using Inr p False Do_sharded_trace
      by (fastforce simp add: Do_plan_def)
  qed
qed


text \<open>
  Claim C3. Once the tenants of the request are known, the shard count the middleware
  works with is the request's own \<open>TotalShards\<close> when that is positive and the tenants'
  configured value otherwise. When sharding is disabled for the request or that count is
  at most 1, the result is the next handler's on the request as it came, the attempts
  counter keeps its value, and the only things the request did are one debug line and the
  call of the next handler: the planner was not called. In the other case the attempt is
  counted and the planner is called with that count.
\<close>

theorem Do_decide_unsharded:
  assumes "TenantIDs c = Inr ids"
  shows
    "totalShards c ids r =
       (if 0 < TotalShards (GetOptions r) then TotalShards (GetOptions r)
        else QueryShardingTotalShards c ids)
   \<and> (ShardingDisabled (GetOptions r) \<or> totalShards c ids r \<le> 1
      \<longrightarrow> fst (Do c st r) = nextDo c r
          \<and> shardingAttempts (snd (Do c st r)) = shardingAttempts st
          \<and> trace (snd (Do c st r)) =
              trace st @ [Log Debug ''query sharding is disabled for this query or tenant'' [],
                          CallNext r])
   \<and> (\<not> ShardingDisabled (GetOptions r) \<and> 1 < totalShards c ids r
      \<longrightarrow> shardingAttempts (snd (Do c st r)) = shardingAttempts st + 1
          \<and> CallShardQuery (GetQuery r) (totalShards c ids r) \<in> set (trace (snd (Do c st r))))"
  using assms
  by (simp add: Do_def emit_def totalShards_def Do_plan_attempts Do_plan_called)

theorem Do_decide_unsharded_witness:
  "TenantIDs exampleCollaborators = Inr [''tenant-a'']
   \<and> totalShards exampleCollaborators [''tenant-a''] (exampleRequest ''sum(rate(x[1m]))'' 1 False) = 1
   \<and> fst (Do exampleCollaborators initialState (exampleRequest ''sum(rate(x[1m]))'' 1 False))
       = nextDo exampleCollaborators (exampleRequest ''sum(rate(x[1m]))'' 1 False)
   \<and> shardingAttempts (snd (Do exampleCollaborators initialState
         (exampleRequest ''sum(rate(x[1m]))'' 1 False))) = 0
   \<and> totalShards exampleCollaborators [''tenant-a''] (exampleRequest ''sum(rate(x[1m]))'' 0 False) = 16
   \<and> shardingAttempts (snd (Do exampleCollaborators initialState
         (exampleRequest ''sum(rate(x[1m]))'' 0 False))) = 1
   \<and> CallShardQuery ''sum(rate(x[1m]))'' 16 \<in> set (trace (snd (Do exampleCollaborators initialState
         (exampleRequest ''sum(rate(x[1m]))'' 0 False))))"
  using Do_decide_unsharded [of exampleCollaborators "[''tenant-a'']"
          "exampleRequest ''sum(rate(x[1m]))'' 1 False" initialState]
        Do_decide_unsharded [of exampleCollaborators "[''tenant-a'']"
          "exampleRequest ''sum(rate(x[1m]))'' 0 False" initialState]
  by (simp add: exampleCollaborators_def exampleRequest_def initialState_def Do_def Do_plan_def
      Do_sharded_def shardQuery_def totalShards_def emit_def WithQuery_def)

text \<open>
  Claim C4. For a request that reaches the planning step (tenants known, sharding not
  disabled, shard count above 1): when the planner returns an error, or a rewrite with
  zero sharded queries, the result of the middleware is the result of the next handler
  on the request as it came, and calling that handler on that request is the last thing
  the middleware did.
\<close>

theorem Do_plan_fallback:
  assumes "TenantIDs c = Inr ids"
    and "\<not> ShardingDisabled (GetOptions r)"
    and "1 < totalShards c ids r"
    and "shardQuery c (GetQuery r) (totalShards c ids r) = Inl e \<or>
         shardQuery c (GetQuery r) (totalShards c ids r) = Inr (q, 0)"
  shows "fst (Do c st r) = nextDo c r \<and> last (trace (snd (Do c st r))) = CallNext r"
  using assms
  by (auto simp add: Do_def Do_plan_def emit_def)

theorem Do_plan_fallback_witness:
  "TenantIDs exampleCollaborators = Inr [''tenant-a'']
   \<and> \<not> ShardingDisabled (GetOptions (exampleRequest ''up'' 4 False))
   \<and> 1 < totalShards exampleCollaborators [''tenant-a''] (exampleRequest ''up'' 4 False)
   \<and> shardQuery exampleCollaborators ''up'' 4 = Inr (''up'', 0)
   \<and> fst (Do exampleCollaborators initialState (exampleRequest ''up'' 4 False))
       = nextDo exampleCollaborators (exampleRequest ''up'' 4 False)
   \<and> last (trace (snd (Do exampleCollaborators initialState (exampleRequest ''up'' 4 False))))
       = CallNext (exampleRequest ''up'' 4 False)
   \<and> shardQuery exampleCollaborators ''boom'' 4 = Inl (PlainError ''cannot map'')
   \<and> fst (Do exampleCollaborators initialState (exampleRequest ''boom'' 4 False))
       = nextDo exampleCollaborators (exampleRequest ''boom'' 4 False)"
  using Do_plan_fallback [of exampleCollaborators "[''tenant-a'']" "exampleRequest ''up'' 4 False"
          "PlainError ''cannot map''" "''up''" initialState]
        Do_plan_fallback [of exampleCollaborators "[''tenant-a'']" "exampleRequest ''boom'' 4 False"
          "PlainError ''cannot map''" "''up''" initialState]
  by (simp add: exampleCollaborators_def exampleRequest_def initialState_def Do_def Do_plan_def
      shardQuery_def totalShards_def emit_def)

text \<open>
  Claim C5. Once the sharding mapper has been built, a query that fails to parse makes
  \<open>shardQuery\<close> return an error, and that error is a \<open>TypeBadData\<close> error carrying the
  parser's message; the caller, the planning part of \<open>Do\<close>, writes it with the query
  into a warning before it falls back to the next handler. An error of the mapper,
  instead, is returned as the mapper gave it, without that classification.
\<close>

theorem shardQuery_parse_error:
  assumes "NewSharding c n = Inr mapper"
  shows "(ParseExpr c query = Inl e
            \<longrightarrow> shardQuery c query n = Inl (ApiError TypeBadData (Error e))
              \<and> (GetQuery r = query \<longrightarrow>
                   fst (Do_plan c st r n) = nextDo c r
                 \<and> Log Warn ''failed to rewrite the input query into a shardable query, falling back to try executing without sharding''
                       [(''query'', Str query), (''err'', Str (Error e))]
                     \<in> set (trace (snd (Do_plan c st r n)))))
       \<and> (ParseExpr c query = Inr expr \<and> mapper expr = Inl e'
            \<longrightarrow> shardQuery c query n = Inl e')"
  using assms by (simp add: shardQuery_def Do_plan_def emit_def)

theorem shardQuery_parse_error_witness:
  "shardQuery exampleCollaborators ''sum('' 16 = Inl (ApiError TypeBadData ''unexpected end of input'')
   \<and> Log Warn ''failed to rewrite the input query into a shardable query, falling back to try executing without sharding''
         [(''query'', Str ''sum(''), (''err'', Str ''unexpected end of input'')]
       \<in> set (trace (snd (Do_plan exampleCollaborators initialState (exampleRequest ''sum('' 0 False) 16)))
   \<and> shardQuery exampleCollaborators ''boom'' 16 = Inl (PlainError ''cannot map'')"
  using shardQuery_parse_error [where c = exampleCollaborators and n = 16
          and mapper = "\<lambda>expr. if expr = ''up'' then Inr (expr, 0)
                  else if expr = ''boom'' then Inl (PlainError ''cannot map'')
                  else Inr (''sharded '' @ expr, 16)"
          and query = "''sum(''" and e = "PlainError ''unexpected end of input''"
          and r = "exampleRequest ''sum('' 0 False" and st = initialState]
        shardQuery_parse_error [where c = exampleCollaborators and n = 16
          and mapper = "\<lambda>expr. if expr = ''up'' then Inr (expr, 0)
                  else if expr = ''boom'' then Inl (PlainError ''cannot map'')
                  else Inr (''sharded '' @ expr, 16)"
          and query = "''boom''" and expr = "''boom''" and e' = "PlainError ''cannot map''"]
  by (simp add: exampleCollaborators_def exampleRequest_def shardQuery_def Do_plan_def emit_def)

text \<open>
  Claim C6, as stated, gives storage errors a category of their own. The source sets
  \<open>TypeInternal\<close> in its \<open>promql.ErrStorage\<close> case: a storage error and any other error
  with the same message are mapped to the same \<open>TypeInternal\<close> error.
\<close>

theorem mapEngineError_storage_counterexample:
  "mapEngineError (Some (ErrStorage (PlainError ''chunk store unavailable'')))
     = Some (ApiError TypeInternal ''chunk store unavailable'')
   \<and> mapEngineError (Some (ErrStorage (PlainError ''chunk store unavailable'')))
     = mapEngineError (Some (PlainError ''chunk store unavailable''))"
  by (simp add: mapEngineError_def)

text \<open>
  Claim C6, amended. \<open>mapEngineError\<close> maps nil to nil, an error whose cause is a canceled
  query to a \<open>TypeCanceled\<close> error, one whose cause is a timed-out query to a
  \<open>TypeTimeout\<close> error, and every other error, storage errors included, to a
  \<open>TypeInternal\<close> error, always with the message of the error it was given; and the
  sharded part of \<open>Do\<close> returns an evaluation error of the engine through this mapping,
  while an error of the engine's \<open>NewRangeQuery\<close> is returned as it is.
\<close>

theorem mapEngineError_taxonomy:
  "mapEngineError None = None
   \<and> (Cause e = ErrQueryCanceled q
        \<longrightarrow> mapEngineError (Some e) = Some (ApiError TypeCanceled (Error e)))
   \<and> (Cause e = ErrQueryTimeout q
        \<longrightarrow> mapEngineError (Some e) = Some (ApiError TypeTimeout (Error e)))
   \<and> ((\<forall>q. Cause e \<noteq> ErrQueryCanceled q) \<and> (\<forall>q. Cause e \<noteq> ErrQueryTimeout q)
        \<longrightarrow> mapEngineError (Some e) = Some (ApiError TypeInternal (Error e)))
   \<and> (FromResult c (Exec c qry) = Inl e \<and> NewRangeQuery c (WithQuery sq r) = Inr qry
        \<longrightarrow> fst (Do_sharded c st r sq n) = Inl (the (mapEngineError (Some e))))
   \<and> (NewRangeQuery c (WithQuery sq r) = Inl e
        \<longrightarrow> fst (Do_sharded c st r sq n) = Inl e)"
  by (cases "Cause e") (simp_all add: mapEngineError_def Do_sharded_def Let_def)

theorem mapEngineError_taxonomy_witness:
  "mapEngineError (Some (Wrapped (ErrQueryCanceled ''query execution'') ''shard 3''))
     = Some (ApiError TypeCanceled ''shard 3: query was canceled in query execution'')
   \<and> mapEngineError (Some (ErrQueryTimeout ''query execution''))
     = Some (ApiError TypeTimeout ''query timed out in query execution'')
   \<and> mapEngineError (Some (ErrStorage (PlainError ''chunk store unavailable'')))
     = Some (ApiError TypeInternal ''chunk store unavailable'')
   \<and> fst (Do_sharded exampleCollaborators initialState (exampleRequest ''slow'' 0 False)
            ''sharded slow'' 16)
     = Inl (ApiError TypeTimeout ''query timed out in query execution'')
   \<and> fst (Do_sharded exampleCollaborators initialState (exampleRequest ''bad'' 0 False)
            ''sharded bad'' 16)
     = Inl (PlainError ''invalid expression'')"
  using mapEngineError_taxonomy [of "Wrapped (ErrQueryCanceled ''query execution'') ''shard 3''"
          "''query execution''" exampleCollaborators "''sharded slow''" "''sharded slow''"
          "exampleRequest ''slow'' 0 False" initialState 16]
        mapEngineError_taxonomy [of "ErrQueryTimeout ''query execution''"
          "''query execution''" exampleCollaborators "''sharded slow''" "''sharded slow''"
          "exampleRequest ''slow'' 0 False" initialState 16]
        mapEngineError_taxonomy [of "ErrStorage (PlainError ''chunk store unavailable'')"
          "''query execution''" exampleCollaborators "''sharded slow''" "''sharded slow''"
          "exampleRequest ''slow'' 0 False" initialState 16]
        mapEngineError_taxonomy [of "PlainError ''invalid expression''"
          "''query execution''" exampleCollaborators "''sharded bad''" "''sharded bad''"
          "exampleRequest ''bad'' 0 False" initialState 16]
  by (simp add: exampleCollaborators_def exampleRequest_def WithQuery_def mapEngineError_def
      Do_sharded_def)

section \<open>Series merge iterator (package querier)\<close>

subsection \<open>Chunks, labels and errors\<close>

text \<open>
  A label set is a list of name and value pairs. A chunk is the \<open>storepb.AggrChunk\<close> the
  tests build: its time bounds, and its payload. Decoding the payload is not part of
  the repository, so \<open>Raw\<close> holds what decoding gives: the cause of a failure (\<open>Inl\<close>)
  or the run of samples, each a timestamp in milliseconds and a value. The type of the
  values is left open: the iterator only carries them.
\<close>

type_synonym Labels = "(string \<times> string) list"

record 'v AggrChunk =
  MinTime :: int
  MaxTime :: int
  Raw :: "string + (int \<times> 'v) list"

text \<open>
  The two errors the tests expect from an iterator, with the messages they compare
  (\<open>Labels_String\<close> writes a label set as \<open>{name="value", ...}\<close>).
\<close>

datatype iterator_error = NoChunks | CannotIterateChunk Labels string

definition Labels_String :: "Labels \<Rightarrow> string" where
  "Labels_String ls =
     ''{'' @ concat (map (\<lambda>(i, (n, v)). (if i = 0 then [] else '', '')
                                        @ n @ ''='' @ [CHR 0x22] @ v @ [CHR 0x22])
                      (enumerate (0::nat) ls)) @ ''}''"

fun Error_message :: "iterator_error \<Rightarrow> string" where
  "Error_message NoChunks = ''no chunks''"
| "Error_message (CannotIterateChunk ls cause) =
     ''cannot iterate chunk for series: '' @ Labels_String ls @ '': '' @ cause"

subsection \<open>The series and its iterator\<close>

text \<open>
  Modelled from the spec: \<open>newBlockQuerierSeries\<close>, called by the tests and defined in
  block.go, which is not among the sources. Section 4.4: the chunks of a series are
  ordered by \<open>minTime\<close> ascending, ties broken by \<open>maxTime\<close> ascending, and the iterator
  processes them in this order.
\<close>

record 'v blockQuerierSeries =
  Labels :: Labels
  chunks :: "'v AggrChunk list"

definition newBlockQuerierSeries :: "Labels \<Rightarrow> 'v AggrChunk list \<Rightarrow> 'v blockQuerierSeries" where
  "newBlockQuerierSeries lbls cs =
     \<lparr>Labels = lbls, chunks = sort_key (\<lambda>c. (MinTime c, MaxTime c)) cs\<rparr>"

text \<open>
  Modelled from the spec: the state of the Series Merge Iterator (block.go, not among
  the sources). It keeps the labels for its error, the chunks not opened yet
  (\<open>pending\<close>, one decode cursor per chunk, opened lazily), what is left of the chunk
  that is open (\<open>cursor\<close>), the last point it yielded, whether the last \<open>Next\<close> or
  \<open>Seek\<close> returned true (\<open>At\<close> is valid only then), and its error.
\<close>

record 'v blockQuerierSeriesIterator =
  labels :: Labels
  pending :: "'v AggrChunk list"
  cursor :: "(int \<times> 'v) list"
  lastPoint :: "(int \<times> 'v) option"
  valid :: bool
  iterErr :: "iterator_error option"

definition newBlockQuerierSeriesIterator ::
  "Labels \<Rightarrow> 'v AggrChunk list \<Rightarrow> 'v blockQuerierSeriesIterator" where
  "newBlockQuerierSeriesIterator lbls cs =
     \<lparr>labels = lbls, pending = cs, cursor = [], lastPoint = None, valid = False, iterErr = None\<rparr>"

text \<open>
  Modelled from the spec: the iterator that only reports an error; \<open>Next\<close> and \<open>Seek\<close>
  return false on it (section 4.4, decode failure: once an error is there, the calls
  return false and \<open>Err\<close> reports it).
\<close>

definition NewErrIterator :: "Labels \<Rightarrow> iterator_error \<Rightarrow> 'v blockQuerierSeriesIterator" where
  "NewErrIterator lbls e =
     \<lparr>labels = lbls, pending = [], cursor = [], lastPoint = None, valid = False, iterErr = Some e\<rparr>"

text \<open>
  Modelled from the spec: \<open>Iterator\<close> of a series (block.go, not among the sources):
  the merge iterator over the chunks of the series, in the order the series keeps them
  (section 4.4).

  The specification has no words for a series without chunks. The one statement about
  it is in the sources: the row "empty series" of \<open>TestBlockQuerierSeries\<close> expects no
  sample and an error with the message "no chunks". The first branch below is that
  expectation written down, so that the model agrees with the test; it is not derived
  from anything, and no property of it is claimed.
\<close>

definition Iterator :: "'v blockQuerierSeries \<Rightarrow> 'v blockQuerierSeriesIterator" where
  "Iterator s =
     (if chunks s = [] then NewErrIterator (Labels s) NoChunks
      else newBlockQuerierSeriesIterator (Labels s) (chunks s))"

text \<open>
  Modelled from the spec: the search for the next point (section 4.4). \<open>Next\<close> is true
  iff a new point, strictly greater in time than any previously yielded point, is now
  current; a point whose timestamp is not above the last yielded one is silently
  skipped (\<open>fresh\<close> is the test). A chunk that decodes to zero points contributes
  nothing and the search goes on in the chunk list; a chunk whose decoding fails stops
  the search with the failure; the end of the list is exhaustion.
\<close>

definition fresh :: "(int \<times> 'v) option \<Rightarrow> int \<times> 'v \<Rightarrow> bool" where
  "fresh lp p = (case lp of None \<Rightarrow> True | Some (T, _) \<Rightarrow> T < fst p)"

datatype 'v advance =
    Found "int \<times> 'v" "(int \<times> 'v) list" "'v AggrChunk list"
  | Exhausted
  | Failed string "'v AggrChunk list"

fun nextPoint ::
  "(int \<times> 'v) option \<Rightarrow> (int \<times> 'v) list \<Rightarrow> 'v AggrChunk list \<Rightarrow> 'v advance" where
  "nextPoint lp (p # ps) cs = (if fresh lp p then Found p ps cs else nextPoint lp ps cs)"
| "nextPoint lp [] [] = Exhausted"
| "nextPoint lp [] (c # cs) =
     (case Raw c of Inl cause \<Rightarrow> Failed cause cs | Inr ps \<Rightarrow> nextPoint lp ps cs)"

text \<open>
  Modelled from the spec: \<open>Next\<close>, \<open>At\<close> and \<open>Err\<close> of the Series Merge Iterator
  (section 4.4). After an error \<open>Next\<close> returns false; the error of a decode failure
  carries the labels of the series.
\<close>

definition Next :: "'v blockQuerierSeriesIterator \<Rightarrow> bool \<times> 'v blockQuerierSeriesIterator" where
  "Next it =
     (if iterErr it \<noteq> None then (False, it\<lparr>valid := False\<rparr>)
      else case nextPoint (lastPoint it) (cursor it) (pending it) of
             Found p ps cs \<Rightarrow>
               (True, it\<lparr>pending := cs, cursor := ps, lastPoint := Some p, valid := True\<rparr>)
           | Exhausted \<Rightarrow> (False, it\<lparr>pending := [], cursor := [], valid := False\<rparr>)
           | Failed cause cs \<Rightarrow>
               (False, it\<lparr>pending := cs, cursor := [], valid := False,
                          iterErr := Some (CannotIterateChunk (labels it) cause)\<rparr>))"

definition At :: "'v blockQuerierSeriesIterator \<Rightarrow> (int \<times> 'v) option" where
  "At it = (if valid it then lastPoint it else None)"

definition Err :: "'v blockQuerierSeriesIterator \<Rightarrow> iterator_error option" where
  "Err it = iterErr it"

text \<open>What is left to read: the points of the open chunk and the chunks not opened.\<close>

fun undecoded :: "'v AggrChunk list \<Rightarrow> nat" where
  "undecoded [] = 0"
| "undecoded (c # cs) = Suc (case Raw c of Inl _ \<Rightarrow> 0 | Inr ps \<Rightarrow> length ps) + undecoded cs"

definition remaining :: "'v blockQuerierSeriesIterator \<Rightarrow> nat" where
  "remaining it = length (cursor it) + undecoded (pending it)"

lemma nextPoint_Found_less:
  "nextPoint lp ps cs = Found p ps' cs' \<Longrightarrow> length ps' + undecoded cs' < length ps + undecoded cs"
  by (induction lp ps cs rule: nextPoint.induct) (auto split: if_splits sum.splits)

lemma Next_remaining: "Next it = (True, it') \<Longrightarrow> remaining it' < remaining it"
  by (auto simp add: Next_def remaining_def split: if_splits advance.splits
      dest: nextPoint_Found_less)

text \<open>
  Modelled from the spec: \<open>Seek\<close> of the Series Merge Iterator (section 4.4): it advances
  to the first point with timestamp at or after the target, or to exhaustion, and may
  cross several chunks on the way. A current point that is already at or after the
  target stays current. Each turn of the loop reads at least one point or opens one
  chunk, so the loop ends.
\<close>

definition atOrAfter :: "int \<Rightarrow> 'v blockQuerierSeriesIterator \<Rightarrow> bool" where
  "atOrAfter t it = (case At it of None \<Rightarrow> False | Some (ct, _) \<Rightarrow> t \<le> ct)"

function Seek :: "int \<Rightarrow> 'v blockQuerierSeriesIterator \<Rightarrow> bool \<times> 'v blockQuerierSeriesIterator" where
  "Seek t it =
     (if atOrAfter t it then (True, it)
      else case Next it of
             (True, it') \<Rightarrow> Seek t it'
           | (False, it') \<Rightarrow> (False, it'))"
  by pat_completeness auto
termination
  by (relation "measure (\<lambda>(t, it). remaining it)") (auto simp add: Next_remaining)

subsection \<open>The loops of the tests\<close>

text \<open>
  \<open>TestBlockQuerierSeries\<close> calls \<open>Next\<close> until it returns false, reads \<open>At\<close> after each
  call that returned true, and then looks at \<open>Err\<close>. \<open>iterateAll\<close> gives the samples read
  and the iterator as the loop leaves it; \<open>samplesAndErr\<close> is what the test compares.
\<close>

function iterateAll ::
  "'v blockQuerierSeriesIterator \<Rightarrow> (int \<times> 'v) list \<times> 'v blockQuerierSeriesIterator" where
  "iterateAll it =
     (case Next it of
        (True, it') \<Rightarrow>
          (case iterateAll it' of
             (samples, end) \<Rightarrow> ((case At it' of None \<Rightarrow> samples | Some p \<Rightarrow> p # samples), end))
      | (False, it') \<Rightarrow> ([], it'))"
  by pat_completeness auto
termination
  by (relation "measure remaining") (auto simp add: Next_remaining)

definition samplesAndErr ::
  "'v blockQuerierSeriesIterator \<Rightarrow> (int \<times> 'v) list \<times> iterator_error option" where
  "samplesAndErr it = (case iterateAll it of (samples, end) \<Rightarrow> (samples, Err end))"

text \<open>
  \<open>verifyNextSeries\<close> walks a list of wanted timestamps and advances the iterator once
  for each, through a function \<open>advance\<close> that \<open>TestBlockQuerierSeriesSet\<close> gives in three
  forms: \<open>Next\<close> every time, \<open>Seek\<close> to the wanted timestamp every time, and the two in
  turn, \<open>Seek\<close> first. \<open>useSeek\<close> says for each call, by its number, whether it is a
  \<open>Seek\<close>; the three forms are \<open>onlyNext\<close>, \<open>onlySeek\<close> and \<open>alternating\<close>. \<open>traverse\<close>
  gives what \<open>At\<close> shows after each call (nothing when the call returned false) and the
  iterator at the end.
\<close>

fun traverse ::
  "(nat \<Rightarrow> bool) \<Rightarrow> nat \<Rightarrow> int list \<Rightarrow> 'v blockQuerierSeriesIterator
     \<Rightarrow> (int \<times> 'v) option list \<times> 'v blockQuerierSeriesIterator" where
  "traverse useSeek count [] it = ([], it)"
| "traverse useSeek count (wantTs # rest) it =
     (case (if useSeek count then Seek wantTs it else Next it) of
        (ok, it') \<Rightarrow>
          (case traverse useSeek (Suc count) rest it' of
             (seen, end) \<Rightarrow> ((if ok then At it' else None) # seen, end)))"

definition onlyNext :: "nat \<Rightarrow> bool" where
  "onlyNext count = False"

definition onlySeek :: "nat \<Rightarrow> bool" where
  "onlySeek count = True"

definition alternating :: "nat \<Rightarrow> bool" where
  "alternating count = even count"

text \<open>What a caller sees from the outcome of a \<open>Seek\<close> on: the current point and the rest.\<close>

definition seenFrom ::
  "bool \<times> 'v blockQuerierSeriesIterator \<Rightarrow> (int \<times> 'v) list" where
  "seenFrom r =
     (case r of
        (ok, it') \<Rightarrow>
          if ok then (case At it' of None \<Rightarrow> [] | Some p \<Rightarrow> [p]) @ fst (iterateAll it') else [])"

text \<open>Chunks that decode to zero points, and an iterator without them.\<close>

definition decodesToNothing :: "'v AggrChunk \<Rightarrow> bool" where
  "decodesToNothing c = (Raw c = Inr [])"

definition dropEmpty :: "'v blockQuerierSeriesIterator \<Rightarrow> 'v blockQuerierSeriesIterator" where
  "dropEmpty it = it\<lparr>pending := filter (\<lambda>c. \<not> decodesToNothing c) (pending it)\<rparr>"



subsection \<open>Example chunks\<close>

text \<open>
  Two overlapping chunks, out of order, an empty one and one whose payload cannot be
  decoded, as in the series of \<open>TestBlockQuerierSeriesSet\<close> and
  \<open>TestBlockQuerierSeries\<close>; the values are integers here.
\<close>

definition chunkA :: "int AggrChunk" where
  "chunkA = \<lparr>MinTime = 0, MaxTime = 10, Raw = Inr [(0, 100), (5, 105), (10, 110)]\<rparr>"

definition chunkB :: "int AggrChunk" where
  "chunkB = \<lparr>MinTime = 5, MaxTime = 15, Raw = Inr [(5, 205), (10, 210), (15, 215)]\<rparr>"

text \<open>A chunk with a gap, and a chunk of another replica with a point inside the gap.\<close>

definition chunkWide :: "int AggrChunk" where
  "chunkWide = \<lparr>MinTime = 0, MaxTime = 10, Raw = Inr [(0, 100), (10, 110)]\<rparr>"

definition chunkLate :: "int AggrChunk" where
  "chunkLate = \<lparr>MinTime = 5, MaxTime = 5, Raw = Inr [(5, 205)]\<rparr>"

definition chunkEmpty :: "int AggrChunk" where
  "chunkEmpty = \<lparr>MinTime = 0, MaxTime = -5, Raw = Inr []\<rparr>"

definition chunkCorrupt :: "int AggrChunk" where
  "chunkCorrupt = \<lparr>MinTime = 1000, MaxTime = 10000, Raw = Inl ''EOF''\<rparr>"

declare Seek.simps [simp del] iterateAll.simps [simp del]

subsection \<open>Properties of the iterator\<close>

lemma nextPoint_Found_fresh: "nextPoint lp ps cs = Found p ps' cs' \<Longrightarrow> fresh lp p"
  by (induction lp ps cs rule: nextPoint.induct) (auto split: if_splits sum.splits)

lemma Next_True:
  assumes "Next it = (True, it')"
  obtains p where "At it' = Some p" "lastPoint it' = Some p" "valid it'" "fresh (lastPoint it) p"
    "iterErr it' = None"
  using assms
  by (auto simp add: Next_def At_def split: if_splits advance.splits dest: nextPoint_Found_fresh)

lemma iterateAll_True:
  "Next it = (True, it') \<Longrightarrow> At it' = Some p \<Longrightarrow>
   iterateAll it = (p # fst (iterateAll it'), snd (iterateAll it'))"
  by (subst iterateAll.simps) (simp split: prod.splits)

lemma iterateAll_False: "Next it = (False, it') \<Longrightarrow> iterateAll it = ([], it')"
  by (subst iterateAll.simps) simp

lemma iterateAll_unfold:
  "iterateAll it =
     (if fst (Next it)
      then (case iterateAll (snd (Next it)) of
              (samples, end) \<Rightarrow>
                ((case At (snd (Next it)) of None \<Rightarrow> samples | Some p \<Rightarrow> p # samples), end))
      else ([], snd (Next it)))"
  by (subst iterateAll.simps) (simp split: prod.splits)



lemma Seek_is_Next:
  assumes n: "Next it = (True, it')" and a: "At it' = Some (w, v)"
  shows "Seek w it = (True, it')"
proof -
  from n obtain p where p: "At it' = Some p" "fresh (lastPoint it) p" by (rule Next_True)
  with a have f: "fresh (lastPoint it) (w, v)" by simp
  have "\<not> atOrAfter w it"
    using f by (auto simp add: atOrAfter_def At_def fresh_def split: option.splits if_splits)
  then have "Seek w it = Seek w it'"
    using n by (subst Seek.simps) simp
  moreover have "atOrAfter w it'" using a by (simp add: atOrAfter_def)
  then have "Seek w it' = (True, it')" by (subst Seek.simps) simp
  ultimately show ?thesis by simp
qed

lemma traverse_iterateAll:
  "fst (traverse useSeek k (map fst (fst (iterateAll it))) it) = map Some (fst (iterateAll it)) \<and>
   iterateAll (snd (traverse useSeek k (map fst (fst (iterateAll it))) it)) = ([], snd (iterateAll it))"
proof (induction it arbitrary: k rule: iterateAll.induct)
  case (1 it)
  obtain ok it' where n: "Next it = (ok, it')" by (cases "Next it")
  show ?case
  proof (cases ok)
    case False
    then show ?thesis using n by (simp add: iterateAll_False)
  next
    case True
    with n have n': "Next it = (True, it')" by simp
    from n' obtain p where p: "At it' = Some p" by (rule Next_True)
    obtain w v where wv: "p = (w, v)" by (cases p)
    have eq: "iterateAll it = (p # fst (iterateAll it'), snd (iterateAll it'))"
      using iterateAll_True [OF n' p] .
    have adv: "(if useSeek k then Seek w it else Next it) = (True, it')"
      using n' Seek_is_Next [OF n'] p wv by simp
    have ih: "fst (traverse useSeek (Suc k) (map fst (fst (iterateAll it'))) it')
                = map Some (fst (iterateAll it')) \<and>
              iterateAll (snd (traverse useSeek (Suc k) (map fst (fst (iterateAll it'))) it'))
                = ([], snd (iterateAll it'))"
      using "1.IH" [OF n' [symmetric] refl, of "Suc k"] by simp
    show ?thesis using eq adv ih p wv by (simp add: case_prod_beta)
  qed
qed

lemma Seek_seenFrom:
  "\<not> atOrAfter t it \<Longrightarrow>
   seenFrom (Seek t it) = dropWhile (\<lambda>p. fst p < t) (fst (iterateAll it))"
proof (induction it rule: iterateAll.induct)
  case (1 it)
  obtain ok it' where n: "Next it = (ok, it')" by (cases "Next it")
  show ?case
  proof (cases ok)
    case False
    then have "Seek t it = (False, it')" using n "1.prems" by (subst Seek.simps) simp
    then show ?thesis using n False by (simp add: iterateAll_False seenFrom_def)
  next
    case True
    with n have n': "Next it = (True, it')" by simp
    from n' obtain p where p: "At it' = Some p" by (rule Next_True)
    have eq: "fst (iterateAll it) = p # fst (iterateAll it')"
      using iterateAll_True [OF n' p] by simp
    have s: "Seek t it = Seek t it'" using n' "1.prems" by (subst Seek.simps) simp
    show ?thesis
    proof (cases "atOrAfter t it'")
      case True
      then have "Seek t it' = (True, it')" by (subst Seek.simps) simp
      moreover have "\<not> fst p < t" using True p by (auto simp add: atOrAfter_def)
      ultimately show ?thesis using s eq p by (simp add: seenFrom_def)
    next
      case False
      then have "fst p < t" using p by (auto simp add: atOrAfter_def)
      moreover have "seenFrom (Seek t it') = dropWhile (\<lambda>p. fst p < t) (fst (iterateAll it'))"
        using "1.IH" [OF n' [symmetric] refl False] .
      ultimately show ?thesis using s eq by simp
    qed
  qed
qed

lemma new_not_atOrAfter: "\<not> atOrAfter t (Iterator s)"
  by (simp add: atOrAfter_def At_def Iterator_def NewErrIterator_def newBlockQuerierSeriesIterator_def)


lemma nextPoint_filter:
  "nextPoint lp ps (filter (\<lambda>c. \<not> decodesToNothing c) cs) =
     (case nextPoint lp ps cs of
        Found p ps' cs' \<Rightarrow> Found p ps' (filter (\<lambda>c. \<not> decodesToNothing c) cs')
      | Exhausted \<Rightarrow> Exhausted
      | Failed cause cs' \<Rightarrow> Failed cause (filter (\<lambda>c. \<not> decodesToNothing c) cs'))"
  by (induction lp ps cs rule: nextPoint.induct)
    (auto simp add: decodesToNothing_def split: sum.splits)

lemma Next_dropEmpty: "Next (dropEmpty it) = (fst (Next it), dropEmpty (snd (Next it)))"
  by (simp add: Next_def dropEmpty_def nextPoint_filter split: advance.splits)

lemma At_dropEmpty [simp]: "At (dropEmpty it) = At it"
  by (simp add: At_def dropEmpty_def)

lemma Err_dropEmpty [simp]: "Err (dropEmpty it) = Err it"
  by (simp add: Err_def dropEmpty_def)

lemma iterateAll_dropEmpty:
  "iterateAll (dropEmpty it) = (fst (iterateAll it), dropEmpty (snd (iterateAll it)))"
proof (induction it rule: iterateAll.induct)
  case (1 it)
  obtain ok it' where n: "Next it = (ok, it')" by (cases "Next it")
  then have nd: "Next (dropEmpty it) = (ok, dropEmpty it')" by (simp add: Next_dropEmpty)
  show ?case
  proof (cases ok)
    case False
    then show ?thesis using n nd by (simp add: iterateAll_False)
  next
    case True
    with n nd have n': "Next it = (True, it')" and nd': "Next (dropEmpty it) = (True, dropEmpty it')"
      by simp_all
    from n' obtain p where p: "At it' = Some p" by (rule Next_True)
    have ih: "iterateAll (dropEmpty it') = (fst (iterateAll it'), dropEmpty (snd (iterateAll it')))"
      using "1.IH" [OF n' [symmetric] refl] .
    show ?thesis
      using iterateAll_True [OF n' p] iterateAll_True [OF nd', of p] p ih by simp
  qed
qed

lemma samplesAndErr_dropEmpty: "samplesAndErr (dropEmpty it) = samplesAndErr it"
  by (simp add: samplesAndErr_def iterateAll_dropEmpty case_prod_beta)

lemma samplesAndErr_no_chunks_left:
  "samplesAndErr (newBlockQuerierSeriesIterator lbls []) = ([], None)"
  by (simp add: samplesAndErr_def newBlockQuerierSeriesIterator_def iterateAll_False Next_def Err_def)

lemma Iterator_nonempty:
  assumes "cs \<noteq> []"
  shows "Iterator (newBlockQuerierSeries lbls cs) =
     newBlockQuerierSeriesIterator lbls (sort_key (\<lambda>c. (MinTime c, MaxTime c)) cs)"
proof -
  have "set (sort_key (\<lambda>c. (MinTime c, MaxTime c)) cs) \<noteq> {}" using assms by simp
  then have "sort_key (\<lambda>c. (MinTime c, MaxTime c)) cs \<noteq> []" by (simp only: set_empty not_False_eq_True)
  then show ?thesis by (simp add: Iterator_def newBlockQuerierSeries_def)
qed

lemma dropEmpty_new:
  "dropEmpty (newBlockQuerierSeriesIterator lbls (sort_key (\<lambda>c. (MinTime c, MaxTime c)) cs)) =
   newBlockQuerierSeriesIterator lbls
     (sort_key (\<lambda>c. (MinTime c, MaxTime c)) (filter (\<lambda>c. \<not> decodesToNothing c) cs))"
  by (simp add: dropEmpty_def newBlockQuerierSeriesIterator_def filter_sort)





lemmas iterator_eval =
  Iterator_def newBlockQuerierSeries_def newBlockQuerierSeriesIterator_def NewErrIterator_def
  iterateAll_unfold Next_def fresh_def At_def Err_def samplesAndErr_def Seek.simps atOrAfter_def
  decodesToNothing_def less_eq_prod_def less_prod_def seenFrom_def
  chunkA_def chunkB_def chunkEmpty_def chunkCorrupt_def chunkWide_def chunkLate_def




text \<open>
  Claim C2. For the iterator of any chunk list: walking the timestamps of the merged
  stream with one call per timestamp, each call a \<open>Next\<close> or a \<open>Seek\<close> to that timestamp
  as \<open>useSeek\<close> decides (only \<open>Next\<close>, only \<open>Seek\<close>, alternating, or any other
  pattern), shows exactly the samples that \<open>Next\<close> alone yields, and leaves an iterator
  that is exhausted in the same way. A \<open>Seek\<close> to any target on the new iterator shows
  the merged stream from its first point at or after the target.
\<close>

theorem merged_view_independent_of_access_pattern:
  "fst (traverse useSeek 0
          (map fst (fst (iterateAll (Iterator (newBlockQuerierSeries lbls cs)))))
          (Iterator (newBlockQuerierSeries lbls cs)))
     = map Some (fst (iterateAll (Iterator (newBlockQuerierSeries lbls cs))))
   \<and> iterateAll (snd (traverse useSeek 0
          (map fst (fst (iterateAll (Iterator (newBlockQuerierSeries lbls cs)))))
          (Iterator (newBlockQuerierSeries lbls cs))))
     = ([], snd (iterateAll (Iterator (newBlockQuerierSeries lbls cs))))
   \<and> seenFrom (Seek t (Iterator (newBlockQuerierSeries lbls cs)))
     = dropWhile (\<lambda>p. fst p < t) (fst (iterateAll (Iterator (newBlockQuerierSeries lbls cs))))"
  using traverse_iterateAll Seek_seenFrom [OF new_not_atOrAfter] by blast

text \<open>The three forms of \<open>advance\<close> of the test, on the two overlapping chunks.\<close>

lemma access_patterns_example:
  "fst (traverse onlyNext 0 [0, 5, 10, 15]
         (Iterator (newBlockQuerierSeries [(''__name__'', ''overlapping'')] [chunkB, chunkEmpty, chunkA])))
     = [Some (0, 100), Some (5, 105), Some (10, 110), Some (15, 215)]"
  "fst (traverse onlySeek 0 [0, 5, 10, 15]
         (Iterator (newBlockQuerierSeries [(''__name__'', ''overlapping'')] [chunkB, chunkEmpty, chunkA])))
     = [Some (0, 100), Some (5, 105), Some (10, 110), Some (15, 215)]"
  "fst (traverse alternating 0 [0, 5, 10, 15]
         (Iterator (newBlockQuerierSeries [(''__name__'', ''overlapping'')] [chunkB, chunkEmpty, chunkA])))
     = [Some (0, 100), Some (5, 105), Some (10, 110), Some (15, 215)]"
  by (simp_all add: iterator_eval onlyNext_def onlySeek_def alternating_def)

text \<open>
  Claim C9. A series whose chunk list is not empty and whose chunks all decode to zero
  points yields no sample and no error. More generally, as long as one chunk that
  decodes to something is there, the samples and the error are those of the same
  series without its empty chunks: an empty chunk adds nothing, raises no error, and
  does not end the iteration before the chunks behind it are read.
\<close>

theorem empty_chunks_contribute_nothing:
  assumes "cs \<noteq> []"
  shows "((\<forall>c \<in> set cs. decodesToNothing c)
            \<longrightarrow> samplesAndErr (Iterator (newBlockQuerierSeries lbls cs)) = ([], None))
       \<and> (filter (\<lambda>c. \<not> decodesToNothing c) cs \<noteq> []
            \<longrightarrow> samplesAndErr (Iterator (newBlockQuerierSeries lbls cs)) =
                samplesAndErr (Iterator (newBlockQuerierSeries lbls
                                (filter (\<lambda>c. \<not> decodesToNothing c) cs))))"
proof -
  have eq: "samplesAndErr (Iterator (newBlockQuerierSeries lbls cs)) =
            samplesAndErr (newBlockQuerierSeriesIterator lbls
              (sort_key (\<lambda>c. (MinTime c, MaxTime c)) (filter (\<lambda>c. \<not> decodesToNothing c) cs)))"
    using samplesAndErr_dropEmpty [of "newBlockQuerierSeriesIterator lbls
              (sort_key (\<lambda>c. (MinTime c, MaxTime c)) cs)"]
    by (simp add: Iterator_nonempty [OF assms] dropEmpty_new)
  have all_empty: "samplesAndErr (Iterator (newBlockQuerierSeries lbls cs)) = ([], None)"
    if "\<forall>c \<in> set cs. decodesToNothing c"
  proof -
    from that have "filter (\<lambda>c. \<not> decodesToNothing c) cs = []" by (simp add: filter_empty_conv)
    then show ?thesis using eq by (simp add: samplesAndErr_no_chunks_left)
  qed
  have some_left: "samplesAndErr (Iterator (newBlockQuerierSeries lbls cs)) =
                samplesAndErr (Iterator (newBlockQuerierSeries lbls
                                (filter (\<lambda>c. \<not> decodesToNothing c) cs)))"
    if "filter (\<lambda>c. \<not> decodesToNothing c) cs \<noteq> []"
    using eq that by (simp add: Iterator_nonempty)
  show ?thesis using all_empty some_left by blast
qed

theorem empty_chunks_contribute_nothing_witness:
  "[chunkEmpty, chunkEmpty\<lparr>MinTime := 10000, MaxTime := 9995\<rparr>] \<noteq> []
   \<and> decodesToNothing chunkEmpty
   \<and> decodesToNothing (chunkEmpty\<lparr>MinTime := 10000, MaxTime := 9995\<rparr>)
   \<and> samplesAndErr (Iterator (newBlockQuerierSeries [(''__name__'', ''many_empty_chunks'')]
        [chunkEmpty, chunkEmpty\<lparr>MinTime := 10000, MaxTime := 9995\<rparr>])) = ([], None)
   \<and> filter (\<lambda>c. \<not> decodesToNothing c) [chunkEmpty, chunkB, chunkEmpty, chunkA] = [chunkB, chunkA]
   \<and> samplesAndErr (Iterator (newBlockQuerierSeries [(''__name__'', ''many_empty_chunks'')]
        [chunkEmpty, chunkB, chunkEmpty, chunkA]))
     = samplesAndErr (Iterator (newBlockQuerierSeries [(''__name__'', ''many_empty_chunks'')]
        [chunkB, chunkA]))
   \<and> samplesAndErr (Iterator (newBlockQuerierSeries [(''__name__'', ''many_empty_chunks'')]
        [chunkEmpty, chunkB, chunkEmpty, chunkA]))
     = ([(0, 100), (5, 105), (10, 110), (15, 215)], None)"
  using empty_chunks_contribute_nothing [where lbls = "[(''__name__'', ''many_empty_chunks'')]"
      and cs = "[chunkEmpty, chunkEmpty\<lparr>MinTime := 10000, MaxTime := 9995\<rparr>]"]
    empty_chunks_contribute_nothing [where lbls = "[(''__name__'', ''many_empty_chunks'')]"
      and cs = "[chunkEmpty, chunkB, chunkEmpty, chunkA]"]
  by (simp add: iterator_eval)

text \<open>The row of \<open>TestBlockQuerierSeries\<close> with a payload that cannot be decoded.\<close>

lemma decode_failure_example:
  "samplesAndErr (Iterator (newBlockQuerierSeries [(''foo'', ''bar'')] [chunkCorrupt]))
     = ([], Some (CannotIterateChunk [(''foo'', ''bar'')] ''EOF''))"
  "Error_message (CannotIterateChunk [(''foo'', ''bar'')] ''EOF'')
     = ''cannot iterate chunk for series: {foo='' @ [CHR 0x22] @ ''bar'' @ [CHR 0x22] @ ''}: EOF''"
  by (simp_all add: iterator_eval Labels_String_def)

end
